theory Spec2Isabelle
  imports Complex_Main
begin

section \<open>Data model (measurementdata.h)\<close>

text \<open>
  A \<open>double\<close> that the parser stores is a finite value: it is read by stream extraction,
  which yields neither NaN nor an infinity. Finite doubles are real numbers and their
  comparison is the order of the reals, so a stored coordinate is modelled as a \<open>real\<close>.
\<close>

datatype ParseResult = Nothing | SeriesCompleted

record MeasurementPoint =
  voltageVolt :: real
  currentMilliAmp :: real

record MeasurementSeries =
  points_f :: "MeasurementPoint list"

datatype ParserState = Idle | ReceivingSeries

record MeasurementDataManager =
  state_f :: ParserState
  currentLine_f :: string
  tempSeries_f :: MeasurementSeries
  series_f :: "MeasurementSeries list"

text \<open>
  The private fields \<open>points_\<close>, \<open>state_\<close>, \<open>currentLine_\<close>, \<open>tempSeries_\<close> and \<open>series_\<close>
  are written with the suffix \<open>_f\<close>, since a name cannot end in an underscore here.
  \<open>emptySeries\<close> is \<open>MeasurementSeries{}\<close>; \<open>initManager\<close> is the default-constructed manager.
\<close>

definition emptySeries :: MeasurementSeries where
  "emptySeries = \<lparr>points_f = []\<rparr>"

definition initManager :: MeasurementDataManager where
  "initManager = \<lparr>state_f = Idle, currentLine_f = [], tempSeries_f = emptySeries, series_f = []\<rparr>"

section \<open>MeasurementSeries\<close>

definition addPoint :: "MeasurementSeries \<Rightarrow> real \<Rightarrow> real \<Rightarrow> MeasurementSeries" where
  "addPoint s voltage currentMA =
     s\<lparr>points_f := points_f s @ [\<lparr>voltageVolt = voltage, currentMilliAmp = currentMA\<rparr>]\<rparr>"

definition points :: "MeasurementSeries \<Rightarrow> MeasurementPoint list" where
  "points s = points_f s"

definition size_series :: "MeasurementSeries \<Rightarrow> nat" where
  "size_series s = length (points_f s)"

definition empty :: "MeasurementSeries \<Rightarrow> bool" where
  "empty s \<longleftrightarrow> points_f s = []"

section \<open>Store queries and mutation\<close>

datatype error = OutOfRange

definition seriesCount :: "MeasurementDataManager \<Rightarrow> nat" where
  "seriesCount m = length (series_f m)"

text \<open>\<open>series_.at(index)\<close> throws \<open>std::out_of_range\<close> unless \<open>index < size()\<close>.\<close>

definition series :: "MeasurementDataManager \<Rightarrow> nat \<Rightarrow> error + MeasurementSeries" where
  "series m index = (if index < length (series_f m) then Inr (series_f m ! index) else Inl OutOfRange)"

definition allSeries :: "MeasurementDataManager \<Rightarrow> MeasurementSeries list" where
  "allSeries m = series_f m"

definition removeAllSeries :: "MeasurementDataManager \<Rightarrow> MeasurementDataManager" where
  "removeAllSeries m = m\<lparr>series_f := []\<rparr>"

definition removeLastSeries :: "MeasurementDataManager \<Rightarrow> MeasurementDataManager" where
  "removeLastSeries m = (if series_f m \<noteq> [] then m\<lparr>series_f := butlast (series_f m)\<rparr> else m)"

definition tempSeriesSize :: "MeasurementDataManager \<Rightarrow> nat" where
  "tempSeriesSize m = size_series (tempSeries_f m)"

text \<open>
  The two scans: \<open>maxV\<close> starts at \<open>0.0\<close>, runs over the points of every stored series in
  order, then over the points of the temporary series, and is overwritten by each
  coordinate that is strictly greater.
\<close>

definition scanVoltage :: "MeasurementPoint list \<Rightarrow> real \<Rightarrow> real" where
  "scanVoltage ps maxV = fold (\<lambda>p mv. if voltageVolt p > mv then voltageVolt p else mv) ps maxV"

definition scanCurrent :: "MeasurementPoint list \<Rightarrow> real \<Rightarrow> real" where
  "scanCurrent ps maxI = fold (\<lambda>p mi. if currentMilliAmp p > mi then currentMilliAmp p else mi) ps maxI"

definition getMaxVoltage :: "MeasurementDataManager \<Rightarrow> real" where
  "getMaxVoltage m =
     scanVoltage (points (tempSeries_f m)) (fold (\<lambda>s mv. scanVoltage (points s) mv) (series_f m) 0)"

definition getMaxCurrent :: "MeasurementDataManager \<Rightarrow> real" where
  "getMaxCurrent m =
     scanCurrent (points (tempSeries_f m)) (fold (\<lambda>s mi. scanCurrent (points s) mi) (series_f m) 0)"

section \<open>Line parser\<close>

text \<open>\<open>std::isspace\<close> on a byte, in the "C" locale: space, \<open>\t\<close>, \<open>\n\<close>, \<open>\v\<close>, \<open>\f\<close>, \<open>\r\<close>.\<close>

definition LF :: char where "LF = CHR 0x0A"
definition CR :: char where "CR = CHR 0x0D"

definition isspace :: "char \<Rightarrow> bool" where
  "isspace c \<longleftrightarrow> c = CHR '' '' \<or> c = CHR 0x09 \<or> c = CHR 0x0A \<or> c = CHR 0x0B \<or> c = CHR 0x0C \<or> c = CHR 0x0D"

text \<open>The two index loops of \<open>trim\<close> and the final \<open>substr(start, end - start)\<close>.\<close>

function trim_start :: "string \<Rightarrow> nat \<Rightarrow> nat" where
  "trim_start s start =
     (if start < length s \<and> isspace (s ! start) then trim_start s (Suc start) else start)"
  by pat_completeness auto
termination
  by (relation "measure (\<lambda>(s, start). length s - start)") auto

function trim_end :: "string \<Rightarrow> nat \<Rightarrow> nat \<Rightarrow> nat" where
  "trim_end s start e =
     (if e > start \<and> isspace (s ! (e - 1)) then trim_end s start (e - 1) else e)"
  by pat_completeness auto
termination
  by (relation "measure (\<lambda>(s, start, e). e)") auto

declare trim_start.simps [simp del]
declare trim_end.simps [simp del]

definition substr :: "string \<Rightarrow> nat \<Rightarrow> nat \<Rightarrow> string" where
  "substr s pos n = take n (drop pos s)"

definition trim :: "string \<Rightarrow> string" where
  "trim s =
     (let start = trim_start s 0;
          e = trim_end s start (length s)
      in substr s start (e - start))"

text \<open>
  \<open>iss >> x\<close> for a \<open>double\<close> is code of the C++ standard library, not of this program. It
  is a parameter of the model: a function from the unread rest of the stream to the value
  read and the new rest, or \<open>None\<close> when the extraction sets \<open>failbit\<close>. After a successful
  extraction the stream is at end-of-file exactly when the rest is empty, so the rest
  alone determines what the next extraction sees.
\<close>

type_synonym extractor = "string \<Rightarrow> (real \<times> string) option"

text \<open>
  The condition \<open>iss >> x >> y\<close>: the second extraction runs only when the first one
  succeeded, on what the first one left; whatever follows the second number is not read.
\<close>

definition extract_pair :: "extractor \<Rightarrow> string \<Rightarrow> (real \<times> real) option" where
  "extract_pair ex line =
     (case ex line of
        None \<Rightarrow> None
      | Some (x, rest) \<Rightarrow>
          (case ex rest of
             None \<Rightarrow> None
           | Some (y, rest') \<Rightarrow> Some (x, y)))"

definition parseDataLine :: "extractor \<Rightarrow> MeasurementDataManager \<Rightarrow> string \<Rightarrow> MeasurementDataManager" where
  "parseDataLine ex m line =
     (case extract_pair ex line of
        None \<Rightarrow> m
      | Some (x, y) \<Rightarrow> m\<lparr>tempSeries_f := addPoint (tempSeries_f m) x y\<rparr>)"

definition handleCompletedLine ::
  "extractor \<Rightarrow> MeasurementDataManager \<Rightarrow> string \<Rightarrow> MeasurementDataManager \<times> ParseResult" where
  "handleCompletedLine ex m rawLine =
     (let line = trim rawLine in
      if line = [] then (m, Nothing)
      else if line = ''*'' then
        (m\<lparr>tempSeries_f := emptySeries, state_f := ReceivingSeries\<rparr>, Nothing)
      else if hd line = CHR ''*'' \<and> line \<noteq> ''*'' then (m, Nothing)
      else if line = ''#'' then
        (if state_f m = ReceivingSeries \<and> \<not> empty (tempSeries_f m) then
           (m\<lparr>series_f := series_f m @ [tempSeries_f m], tempSeries_f := emptySeries, state_f := Idle\<rparr>,
            SeriesCompleted)
         else (m, Nothing))
      else if state_f m = ReceivingSeries then (parseDataLine ex m line, Nothing)
      else (m, Nothing))"

definition processReceivedChar ::
  "extractor \<Rightarrow> MeasurementDataManager \<Rightarrow> char \<Rightarrow> MeasurementDataManager \<times> ParseResult" where
  "processReceivedChar ex m c =
     (if c = LF then
        (let (m', result) = handleCompletedLine ex m (currentLine_f m)
         in (m'\<lparr>currentLine_f := []\<rparr>, result))
      else if c \<noteq> CR then (m\<lparr>currentLine_f := currentLine_f m @ [c]\<rparr>, Nothing)
      else (m, Nothing))"

text \<open>
  The caller's loop (\<open>onSerialDataReceived\<close>): one call per received byte, in order. The
  model returns the final manager and the result of every call.
\<close>

fun feed :: "extractor \<Rightarrow> MeasurementDataManager \<Rightarrow> string \<Rightarrow> MeasurementDataManager \<times> ParseResult list" where
  "feed ex m [] = (m, [])"
| "feed ex m (c # cs) =
     (let (m1, r) = processReceivedChar ex m c;
          (m2, rs) = feed ex m1 cs
      in (m2, r # rs))"

section \<open>A model of the extraction of a \<open>double\<close>\<close>

text \<open>
  The extraction of a \<open>double\<close> from a stream with the classic locale, for decimal
  fields: the sentry skips leading whitespace; the field is an optional sign, digits with
  at most one decimal point, and, after a mantissa, an optional exponent (\<open>e\<close> or \<open>E\<close>,
  an optional sign, digits). The extraction fails when the mantissa has no digit or an
  exponent marker is followed by no digit. The value is the exact decimal value of the
  field: the rounding to the nearest \<open>double\<close> and fields beyond the range of a
  \<open>double\<close> are not modelled. The theorems below hold for every extractor; this one
  instantiates them.
\<close>

definition isdigit :: "char \<Rightarrow> bool" where
  "isdigit c \<longleftrightarrow> (48::nat) \<le> of_char c \<and> of_char c \<le> (57::nat)"

definition digits_value :: "string \<Rightarrow> nat" where
  "digits_value ds = fold (\<lambda>c n. 10 * n + (of_char c - 48)) ds 0"

definition is_sign :: "string \<Rightarrow> bool" where
  "is_sign s \<longleftrightarrow> s \<noteq> [] \<and> (hd s = CHR ''-'' \<or> hd s = CHR ''+'')"

definition is_minus :: "string \<Rightarrow> bool" where
  "is_minus s \<longleftrightarrow> s \<noteq> [] \<and> hd s = CHR ''-''"

definition extract_exponent :: "string \<Rightarrow> (bool \<times> nat \<times> string) option" where
  "extract_exponent s =
     (if s \<noteq> [] \<and> (hd s = CHR ''e'' \<or> hd s = CHR ''E'') then
        (let s1 = (if is_sign (tl s) then tl (tl s) else tl s);
             ep = takeWhile isdigit s1
         in if ep = [] then None
            else Some (is_minus (tl s), digits_value ep, dropWhile isdigit s1))
      else Some (False, 0, s))"

definition extract_double :: extractor where
  "extract_double s =
     (let s0 = dropWhile isspace s;
          s1 = (if is_sign s0 then tl s0 else s0);
          ip = takeWhile isdigit s1;
          s2 = dropWhile isdigit s1;
          dot = (s2 \<noteq> [] \<and> hd s2 = CHR ''.'');
          fp = (if dot then takeWhile isdigit (tl s2) else []);
          s3 = (if dot then dropWhile isdigit (tl s2) else s2);
          mant = real (digits_value ip) + real (digits_value fp) / 10 ^ length fp
      in if ip = [] \<and> fp = [] then None
         else
           (case extract_exponent s3 of
              None \<Rightarrow> None
            | Some (eneg, e, rest) \<Rightarrow>
                Some ((if is_minus s0 then - 1 else 1) * (if eneg then mant / 10 ^ e else mant * 10 ^ e),
                      rest)))"

section \<open>Notions used to state the properties\<close>

text \<open>
  Every point of the store, in scan order: the points of each completed series, then those of
  the temporary series.
\<close>

definition allPoints :: "MeasurementDataManager \<Rightarrow> MeasurementPoint list" where
  "allPoints m = concat (map points (series_f m)) @ points (tempSeries_f m)"

text \<open>
  Managers used as concrete inputs: one in the middle of a series with a single point of
  negative coordinates, the store of the example \<open>[(1.0,2.0),(3.0,0.5)]\<close>, and one receiving a
  series after an earlier one was completed.
\<close>

definition negative_example :: MeasurementDataManager where
  "negative_example =
     \<lparr>state_f = ReceivingSeries, currentLine_f = [],
      tempSeries_f = \<lparr>points_f = [\<lparr>voltageVolt = - 1, currentMilliAmp = - 2\<rparr>]\<rparr>,
      series_f = []\<rparr>"

definition spec_example :: MeasurementDataManager where
  "spec_example =
     \<lparr>state_f = Idle, currentLine_f = [], tempSeries_f = emptySeries,
      series_f = [\<lparr>points_f = [\<lparr>voltageVolt = 1, currentMilliAmp = 2\<rparr>,
                              \<lparr>voltageVolt = 3, currentMilliAmp = 1 / 2\<rparr>]\<rparr>]\<rparr>"

definition receiving_example :: MeasurementDataManager where
  "receiving_example =
     \<lparr>state_f = ReceivingSeries, currentLine_f = ''#'' @ [CR],
      tempSeries_f = \<lparr>points_f = [\<lparr>voltageVolt = 1, currentMilliAmp = 2\<rparr>]\<rparr>,
      series_f = [\<lparr>points_f = [\<lparr>voltageVolt = 3, currentMilliAmp = 4\<rparr>]\<rparr>]\<rparr>"

text \<open>
  The point built from a pair of extracted numbers, the line that \<open>handleCompletedLine\<close>
  sees after trimming when the bytes \<open>l\<close> and a line feed are received on an empty buffer, and
  the bytes of a whole series: a \<open>*\<close> line, the given lines, a \<open>#\<close> line, each ended by a line feed.
\<close>

definition mkPoint :: "real \<times> real \<Rightarrow> MeasurementPoint" where
  "mkPoint xy = \<lparr>voltageVolt = fst xy, currentMilliAmp = snd xy\<rparr>"

definition assembled :: "string \<Rightarrow> string" where
  "assembled l = trim (filter (\<lambda>c. c \<noteq> CR) l)"

definition series_bytes :: "string list \<Rightarrow> string" where
  "series_bytes ls = ''*'' @ [LF] @ concat (map (\<lambda>l. l @ [LF]) ls) @ ''#'' @ [LF]"

text \<open>
  The reading of a data line by whitespace-separated tokens, as a description in words has
  it and not as \<open>parseDataLine\<close> does it: the tokens of a line are its maximal runs of
  characters that are not whitespace; a token is a number when the extraction succeeds on it
  and leaves nothing of it unread.
\<close>

fun split_ws :: "string \<Rightarrow> string \<Rightarrow> string list" where
  "split_ws acc [] = (if acc = [] then [] else [acc])"
| "split_ws acc (c # cs) =
     (if isspace c then (if acc = [] then split_ws [] cs else acc # split_ws [] cs)
      else split_ws (acc @ [c]) cs)"

definition ws_tokens :: "string \<Rightarrow> string list" where
  "ws_tokens line = split_ws [] line"

definition token_is_number :: "extractor \<Rightarrow> string \<Rightarrow> bool" where
  "token_is_number ex t \<longleftrightarrow> (case ex t of None \<Rightarrow> False | Some (x, rest) \<Rightarrow> rest = [])"

definition first_two_tokens_are_numbers :: "extractor \<Rightarrow> string \<Rightarrow> bool" where
  "first_two_tokens_are_numbers ex line \<longleftrightarrow>
     (case ws_tokens line of
        t1 # t2 # ts \<Rightarrow> token_is_number ex t1 \<and> token_is_number ex t2
      | _ \<Rightarrow> False)"

text \<open>
  The managers that the public operations produce from the default-constructed one.
\<close>

inductive reachable :: "extractor \<Rightarrow> MeasurementDataManager \<Rightarrow> bool" for ex :: extractor where
  init: "reachable ex initManager"
| received: "reachable ex m \<Longrightarrow> reachable ex (fst (processReceivedChar ex m c))"
| removedLast: "reachable ex m \<Longrightarrow> reachable ex (removeLastSeries m)"
| removedAll: "reachable ex m \<Longrightarrow> reachable ex (removeAllSeries m)"

section \<open>Properties\<close>

subsection \<open>Trimming\<close>

text \<open>
  The index loops of \<open>trim\<close> remove exactly the leading and the trailing whitespace.
\<close>

lemma trim_start_eq:
  "i \<le> length s \<Longrightarrow> trim_start s i = i + length (takeWhile isspace (drop i s))"
proof (induction s i rule: trim_start.induct)
  case (1 s i)
  show ?case
  proof (cases "i < length s \<and> isspace (s ! i)")
    case True
    then have d: "drop i s = s ! i # drop (Suc i) s" by (simp add: Cons_nth_drop_Suc)
    from True "1.IH" have "trim_start s (Suc i) = Suc i + length (takeWhile isspace (drop (Suc i) s))"
      by simp
    with True d show ?thesis by (subst trim_start.simps) simp
  next
    case False
    show ?thesis
    proof (cases "i < length s")
      case True
      with False have n: "\<not> isspace (s ! i)" by simp
      from True have "drop i s = s ! i # drop (Suc i) s" by (simp add: Cons_nth_drop_Suc)
      with n False show ?thesis by (subst trim_start.simps) simp
    next
      case False
      with "1.prems" show ?thesis by (subst trim_start.simps) simp
    qed
  qed
qed

lemma trim_end_eq:
  "st \<le> e \<Longrightarrow> e \<le> length s \<Longrightarrow>
   take (trim_end s st e - st) (drop st s) =
     rev (dropWhile isspace (rev (take (e - st) (drop st s))))"
proof (induction s st e rule: trim_end.induct)
  case (1 s st e)
  show ?case
  proof (cases "e > st \<and> isspace (s ! (e - 1))")
    case True
    then have le: "st \<le> e - 1" "e - 1 \<le> length s" using "1.prems" by auto
    have idx: "e - 1 - st < length (drop st s)" using True "1.prems" by auto
    have "take (e - st) (drop st s) = take (Suc (e - 1 - st)) (drop st s)"
      using True by (simp add: Suc_diff_Suc)
    also have "\<dots> = take (e - 1 - st) (drop st s) @ [drop st s ! (e - 1 - st)]"
      using idx by (rule take_Suc_conv_app_nth)
    also have "drop st s ! (e - 1 - st) = s ! (e - 1)"
      using True "1.prems" by simp
    finally have t: "take (e - st) (drop st s) = take (e - 1 - st) (drop st s) @ [s ! (e - 1)]" .
    from "1.IH" [OF True le]
    have "take (trim_end s st (e - 1) - st) (drop st s) =
        rev (dropWhile isspace (rev (take (e - 1 - st) (drop st s))))" .
    with True t show ?thesis by (subst trim_end.simps) simp
  next
    case False
    show ?thesis
    proof (cases "e > st")
      case True
      with False have n: "\<not> isspace (s ! (e - 1))" by simp
      have idx: "e - 1 - st < length (drop st s)" using True "1.prems" by auto
      have "take (e - st) (drop st s) = take (Suc (e - 1 - st)) (drop st s)"
        using True by (simp add: Suc_diff_Suc)
      also have "\<dots> = take (e - 1 - st) (drop st s) @ [drop st s ! (e - 1 - st)]"
        using idx by (rule take_Suc_conv_app_nth)
      also have "drop st s ! (e - 1 - st) = s ! (e - 1)"
        using True "1.prems" by simp
      finally have t: "take (e - st) (drop st s) = take (e - 1 - st) (drop st s) @ [s ! (e - 1)]" .
      have "trim_end s st e = e" using n by (subst trim_end.simps) simp
      with n t show ?thesis by simp
    next
      case False
      then have "trim_end s st e = e" by (subst trim_end.simps) simp
      with False show ?thesis by simp
    qed
  qed
qed

lemma trim_eq: "trim s = rev (dropWhile isspace (rev (dropWhile isspace s)))"
proof -
  let ?st = "trim_start s 0"
  have st: "?st = length (takeWhile isspace s)" using trim_start_eq [of 0 s] by simp
  then have le: "?st \<le> length s" by (simp add: length_takeWhile_le)
  have d: "drop ?st s = dropWhile isspace s" unfolding st by (simp add: dropWhile_eq_drop)
  have "trim s = take (trim_end s ?st (length s) - ?st) (drop ?st s)"
    by (simp add: trim_def Let_def substr_def)
  also have "\<dots> = rev (dropWhile isspace (rev (take (length s - ?st) (drop ?st s))))"
    using le by (intro trim_end_eq) simp_all
  also have "take (length s - ?st) (drop ?st s) = drop ?st s" by simp
  finally show ?thesis unfolding d .
qed

subsection \<open>Maximum queries\<close>

lemma scanVoltage_Max: "scanVoltage ps a = Max (insert a (voltageVolt ` set ps))"
proof (induction ps arbitrary: a)
  case Nil
  show ?case by (simp add: scanVoltage_def)
next
  case (Cons p ps)
  have step: "scanVoltage (p # ps) a = scanVoltage ps (max a (voltageVolt p))"
    by (simp add: scanVoltage_def max_def not_less)
  have "Max (insert (max a (voltageVolt p)) (voltageVolt ` set ps))
      = Max (insert a (insert (voltageVolt p) (voltageVolt ` set ps)))"
    by (cases "set ps = {}") (simp_all add: max.assoc)
  with Cons.IH [of "max a (voltageVolt p)"] step show ?case by simp
qed

lemma scanCurrent_Max: "scanCurrent ps a = Max (insert a (currentMilliAmp ` set ps))"
proof (induction ps arbitrary: a)
  case Nil
  show ?case by (simp add: scanCurrent_def)
next
  case (Cons p ps)
  have step: "scanCurrent (p # ps) a = scanCurrent ps (max a (currentMilliAmp p))"
    by (simp add: scanCurrent_def max_def not_less)
  have "Max (insert (max a (currentMilliAmp p)) (currentMilliAmp ` set ps))
      = Max (insert a (insert (currentMilliAmp p) (currentMilliAmp ` set ps)))"
    by (cases "set ps = {}") (simp_all add: max.assoc)
  with Cons.IH [of "max a (currentMilliAmp p)"] step show ?case by simp
qed

lemma scanVoltage_append: "scanVoltage (ps @ qs) a = scanVoltage qs (scanVoltage ps a)"
  by (simp add: scanVoltage_def)

lemma scanCurrent_append: "scanCurrent (ps @ qs) a = scanCurrent qs (scanCurrent ps a)"
  by (simp add: scanCurrent_def)

lemma fold_scanVoltage: "fold (\<lambda>s mv. scanVoltage (points s) mv) ss a = scanVoltage (concat (map points ss)) a"
  by (induction ss arbitrary: a) (simp_all add: scanVoltage_append, simp add: scanVoltage_def)

lemma fold_scanCurrent: "fold (\<lambda>s mi. scanCurrent (points s) mi) ss a = scanCurrent (concat (map points ss)) a"
  by (induction ss arbitrary: a) (simp_all add: scanCurrent_append, simp add: scanCurrent_def)

lemma getMaxVoltage_Max: "getMaxVoltage m = Max (insert 0 (voltageVolt ` set (allPoints m)))"
proof -
  have "getMaxVoltage m = scanVoltage (allPoints m) 0"
    unfolding getMaxVoltage_def allPoints_def fold_scanVoltage scanVoltage_append ..
  then show ?thesis by (simp only: scanVoltage_Max)
qed

lemma getMaxCurrent_Max: "getMaxCurrent m = Max (insert 0 (currentMilliAmp ` set (allPoints m)))"
proof -
  have "getMaxCurrent m = scanCurrent (allPoints m) 0"
    unfolding getMaxCurrent_def allPoints_def fold_scanCurrent scanCurrent_append ..
  then show ?thesis by (simp only: scanCurrent_Max)
qed

lemma Max_insert_floor:
  assumes "finite A" and "x \<in> A" and "(b::real) \<le> x"
  shows "Max (insert b A) = Max A"
proof -
  have "A \<noteq> {}" using assms(2) by auto
  moreover have "b \<le> Max A" using assms by (meson Max_ge order_trans)
  ultimately show ?thesis using assms(1) by (simp add: max_absorb2)
qed

text \<open>
  Claim C2. As amended. \<open>getMaxVoltage\<close> (resp. \<open>getMaxCurrent\<close>) returns \<open>0.0\<close> when no
  point exists in any completed series nor in the temporary series, and returns the maximum
  voltage (resp. current) coordinate over all those points whenever at least one of these
  coordinates is not negative. The scan starts from \<open>0.0\<close>, so the maximum of coordinates that
  are all negative is not returned.
\<close>

theorem getMax_is_maximum_when_nonnegative:
  "(allPoints m = [] \<longrightarrow> getMaxVoltage m = 0 \<and> getMaxCurrent m = 0) \<and>
   ((\<exists>p\<in>set (allPoints m). 0 \<le> voltageVolt p) \<longrightarrow>
      getMaxVoltage m = Max (voltageVolt ` set (allPoints m))) \<and>
   ((\<exists>p\<in>set (allPoints m). 0 \<le> currentMilliAmp p) \<longrightarrow>
      getMaxCurrent m = Max (currentMilliAmp ` set (allPoints m)))"
proof (intro conjI impI)
  assume "allPoints m = []"
  then show "getMaxVoltage m = 0" by (simp add: getMaxVoltage_Max)
next
  assume "allPoints m = []"
  then show "getMaxCurrent m = 0" by (simp add: getMaxCurrent_Max)
next
  assume "\<exists>p\<in>set (allPoints m). 0 \<le> voltageVolt p"
  then obtain p where "p \<in> set (allPoints m)" and "0 \<le> voltageVolt p" by blast
  then show "getMaxVoltage m = Max (voltageVolt ` set (allPoints m))"
    unfolding getMaxVoltage_Max by (intro Max_insert_floor [of _ "voltageVolt p"]) auto
next
  assume "\<exists>p\<in>set (allPoints m). 0 \<le> currentMilliAmp p"
  then obtain p where "p \<in> set (allPoints m)" and "0 \<le> currentMilliAmp p" by blast
  then show "getMaxCurrent m = Max (currentMilliAmp ` set (allPoints m))"
    unfolding getMaxCurrent_Max by (intro Max_insert_floor [of _ "currentMilliAmp p"]) auto
qed

theorem getMax_is_maximum_when_nonnegative_witness:
  "allPoints initManager = [] \<and> getMaxVoltage initManager = 0 \<and> getMaxCurrent initManager = 0 \<and>
   (\<exists>p\<in>set (allPoints spec_example). 0 \<le> voltageVolt p) \<and>
   (\<exists>p\<in>set (allPoints spec_example). 0 \<le> currentMilliAmp p) \<and>
   getMaxVoltage spec_example = 3 \<and> getMaxCurrent spec_example = 2"
proof -
  have e: "allPoints initManager = []"
    by (simp add: allPoints_def initManager_def emptySeries_def points_def)
  have a: "allPoints spec_example =
      [\<lparr>voltageVolt = 1, currentMilliAmp = 2\<rparr>, \<lparr>voltageVolt = 3, currentMilliAmp = 1 / 2\<rparr>]"
    by (simp add: allPoints_def spec_example_def emptySeries_def points_def)
  have v: "\<exists>p\<in>set (allPoints spec_example). 0 \<le> voltageVolt p" by (simp add: a)
  have c: "\<exists>p\<in>set (allPoints spec_example). 0 \<le> currentMilliAmp p" by (simp add: a)
  show ?thesis
    using getMax_is_maximum_when_nonnegative [of initManager]
      getMax_is_maximum_when_nonnegative [of spec_example] e v c
    by (simp add: a)
qed

text \<open>
  The maximum is not returned when every coordinate is negative: after the bytes of \<open>*\<close>, line feed, \<open>-1 -2\<close>, line feed,
  the temporary series holds the single point \<open>(-1, -2)\<close>; the maximum voltage over all points
  is \<open>-1\<close> and the maximum current is \<open>-2\<close>, and both queries return \<open>0\<close>.
\<close>

theorem getMax_not_maximum_counterexample:
  "fst (feed extract_double initManager (''*'' @ [LF] @ ''-1 -2'' @ [LF])) = negative_example \<and>
   allPoints negative_example = [\<lparr>voltageVolt = - 1, currentMilliAmp = - 2\<rparr>] \<and>
   getMaxVoltage negative_example = 0 \<and>
   Max (voltageVolt ` set (allPoints negative_example)) = - 1 \<and>
   getMaxCurrent negative_example = 0 \<and>
   Max (currentMilliAmp ` set (allPoints negative_example)) = - 2 \<and>
   getMaxVoltage negative_example \<noteq> Max (voltageVolt ` set (allPoints negative_example)) \<and>
   getMaxCurrent negative_example \<noteq> Max (currentMilliAmp ` set (allPoints negative_example))"
proof -
  have r: "fst (feed extract_double initManager (''*'' @ [LF] @ ''-1 -2'' @ [LF])) = negative_example"
    by code_simp
  have a: "allPoints negative_example = [\<lparr>voltageVolt = - 1, currentMilliAmp = - 2\<rparr>]"
    by (simp add: allPoints_def negative_example_def points_def)
  have v: "getMaxVoltage negative_example = 0"
    and c: "getMaxCurrent negative_example = 0"
    by (simp_all add: a getMaxVoltage_Max getMaxCurrent_Max)
  have mv: "Max (voltageVolt ` set (allPoints negative_example)) = - 1"
    and mc: "Max (currentMilliAmp ` set (allPoints negative_example)) = - 2"
    by (simp_all add: a)
  have nv: "getMaxVoltage negative_example \<noteq> Max (voltageVolt ` set (allPoints negative_example))"
    and nc: "getMaxCurrent negative_example \<noteq> Max (currentMilliAmp ` set (allPoints negative_example))"
    by (simp_all add: v c mv mc)
  show ?thesis using r a v c mv mc nv nc by blast
qed

text \<open>
  Claim C10. \<open>getMaxVoltage\<close> and \<open>getMaxCurrent\<close> return the maximum of \<open>0.0\<close> and all
  voltage (resp. current) coordinates of the completed series and the temporary series; the
  result is never below \<open>0.0\<close>, and it is \<open>0.0\<close> when all these coordinates are negative.
\<close>

theorem getMax_floor_zero:
  "getMaxVoltage m = Max (insert 0 (voltageVolt ` set (allPoints m))) \<and> 0 \<le> getMaxVoltage m \<and>
   getMaxCurrent m = Max (insert 0 (currentMilliAmp ` set (allPoints m))) \<and> 0 \<le> getMaxCurrent m \<and>
   ((\<forall>p\<in>set (allPoints m). voltageVolt p < 0) \<longrightarrow> getMaxVoltage m = 0) \<and>
   ((\<forall>p\<in>set (allPoints m). currentMilliAmp p < 0) \<longrightarrow> getMaxCurrent m = 0)"
proof -
  have v: "getMaxVoltage m = Max (insert 0 (voltageVolt ` set (allPoints m)))"
    by (rule getMaxVoltage_Max)
  have c: "getMaxCurrent m = Max (insert 0 (currentMilliAmp ` set (allPoints m)))"
    by (rule getMaxCurrent_Max)
  have v0: "0 \<le> getMaxVoltage m" unfolding v by (rule Max_ge) auto
  have c0: "0 \<le> getMaxCurrent m" unfolding c by (rule Max_ge) auto
  have vn: "getMaxVoltage m = 0" if "\<forall>p\<in>set (allPoints m). voltageVolt p < 0"
    unfolding v using that by (intro Max_eqI) (auto intro: less_imp_le)
  have cn: "getMaxCurrent m = 0" if "\<forall>p\<in>set (allPoints m). currentMilliAmp p < 0"
    unfolding c using that by (intro Max_eqI) (auto intro: less_imp_le)
  show ?thesis using v c v0 c0 vn cn by blast
qed

theorem getMax_floor_zero_witness:
  "allPoints negative_example = [\<lparr>voltageVolt = - 1, currentMilliAmp = - 2\<rparr>] \<and>
   getMaxVoltage negative_example = 0 \<and> getMaxCurrent negative_example = 0"
proof -
  have a: "allPoints negative_example = [\<lparr>voltageVolt = - 1, currentMilliAmp = - 2\<rparr>]"
    by (simp add: allPoints_def negative_example_def points_def)
  have v: "\<forall>p\<in>set (allPoints negative_example). voltageVolt p < 0" by (simp add: a)
  have c: "\<forall>p\<in>set (allPoints negative_example). currentMilliAmp p < 0" by (simp add: a)
  show ?thesis using getMax_floor_zero [of negative_example] a v c by blast
qed

subsection \<open>Sentinel and metadata lines\<close>

text \<open>
  Claim C3. When the buffered line trims to exactly \<open>#\<close> and a line feed arrives: if the
  parser is in \<open>ReceivingSeries\<close> and the temporary series is not empty, the temporary series is
  appended at the end of the completed series, the temporary series is cleared, the state
  becomes \<open>Idle\<close> and the call returns \<open>SeriesCompleted\<close>; in every other case the call returns
  \<open>Nothing\<close> and changes nothing but the line buffer, which it clears.
\<close>

theorem hash_line_closes_series:
  assumes "trim (currentLine_f m) = ''#''"
  shows "(state_f m = ReceivingSeries \<and> \<not> empty (tempSeries_f m) \<longrightarrow>
            processReceivedChar ex m LF =
              (m\<lparr>series_f := series_f m @ [tempSeries_f m], tempSeries_f := emptySeries,
                 state_f := Idle, currentLine_f := []\<rparr>, SeriesCompleted)) \<and>
         (\<not> (state_f m = ReceivingSeries \<and> \<not> empty (tempSeries_f m)) \<longrightarrow>
            processReceivedChar ex m LF = (m\<lparr>currentLine_f := []\<rparr>, Nothing))"
  using assms by (simp add: processReceivedChar_def handleCompletedLine_def Let_def)

theorem hash_line_closes_series_witness:
  "trim (currentLine_f receiving_example) = ''#'' \<and>
   state_f receiving_example = ReceivingSeries \<and> \<not> empty (tempSeries_f receiving_example) \<and>
   processReceivedChar extract_double receiving_example LF =
     (\<lparr>state_f = Idle, currentLine_f = [], tempSeries_f = \<lparr>points_f = []\<rparr>,
       series_f = [\<lparr>points_f = [\<lparr>voltageVolt = 3, currentMilliAmp = 4\<rparr>]\<rparr>,
                   \<lparr>points_f = [\<lparr>voltageVolt = 1, currentMilliAmp = 2\<rparr>]\<rparr>]\<rparr>, SeriesCompleted) \<and>
   trim (currentLine_f (initManager\<lparr>currentLine_f := ''#''\<rparr>)) = ''#'' \<and>
   \<not> (state_f (initManager\<lparr>currentLine_f := ''#''\<rparr>) = ReceivingSeries \<and>
      \<not> empty (tempSeries_f (initManager\<lparr>currentLine_f := ''#''\<rparr>))) \<and>
   processReceivedChar extract_double (initManager\<lparr>currentLine_f := ''#''\<rparr>) LF = (initManager, Nothing)"
proof -
  have t: "trim (currentLine_f receiving_example) = ''#''" by code_simp
  have t': "trim (currentLine_f (initManager\<lparr>currentLine_f := ''#''\<rparr>)) = ''#''" by code_simp
  have s: "state_f receiving_example = ReceivingSeries \<and> \<not> empty (tempSeries_f receiving_example)"
    by (simp add: receiving_example_def empty_def)
  have s': "\<not> (state_f (initManager\<lparr>currentLine_f := ''#''\<rparr>) = ReceivingSeries \<and>
      \<not> empty (tempSeries_f (initManager\<lparr>currentLine_f := ''#''\<rparr>)))"
    by (simp add: initManager_def)
  have "processReceivedChar extract_double receiving_example LF =
     (\<lparr>state_f = Idle, currentLine_f = [], tempSeries_f = \<lparr>points_f = []\<rparr>,
       series_f = [\<lparr>points_f = [\<lparr>voltageVolt = 3, currentMilliAmp = 4\<rparr>]\<rparr>,
                   \<lparr>points_f = [\<lparr>voltageVolt = 1, currentMilliAmp = 2\<rparr>]\<rparr>]\<rparr>, SeriesCompleted)"
    using hash_line_closes_series [OF t, of extract_double] s
    by (simp add: receiving_example_def emptySeries_def)
  moreover have "processReceivedChar extract_double (initManager\<lparr>currentLine_f := ''#''\<rparr>) LF = (initManager, Nothing)"
    using hash_line_closes_series [OF t', of extract_double] s'
    by (simp add: initManager_def)
  ultimately show ?thesis using t t' s s' by blast
qed

text \<open>
  Claim C4. When the buffered line trims to exactly \<open>*\<close> and a line feed arrives, in any
  parser state: the temporary series is replaced by an empty one, the state becomes
  \<open>ReceivingSeries\<close>, the completed series are unchanged (what was in the temporary series is
  dropped, not stored) and the call returns \<open>Nothing\<close>.
\<close>

theorem star_line_restarts_series:
  assumes "trim (currentLine_f m) = ''*''"
  shows "processReceivedChar ex m LF =
           (m\<lparr>tempSeries_f := emptySeries, state_f := ReceivingSeries, currentLine_f := []\<rparr>, Nothing) \<and>
         series_f (fst (processReceivedChar ex m LF)) = series_f m \<and>
         tempSeries_f (fst (processReceivedChar ex m LF)) = emptySeries \<and>
         state_f (fst (processReceivedChar ex m LF)) = ReceivingSeries"
  using assms by (simp add: processReceivedChar_def handleCompletedLine_def Let_def)

theorem star_line_restarts_series_witness:
  "trim (currentLine_f (receiving_example\<lparr>currentLine_f := '' *''\<rparr>)) = ''*'' \<and>
   processReceivedChar extract_double (receiving_example\<lparr>currentLine_f := '' *''\<rparr>) LF =
     (\<lparr>state_f = ReceivingSeries, currentLine_f = [], tempSeries_f = \<lparr>points_f = []\<rparr>,
       series_f = [\<lparr>points_f = [\<lparr>voltageVolt = 3, currentMilliAmp = 4\<rparr>]\<rparr>]\<rparr>, Nothing)"
proof -
  have t: "trim (currentLine_f (receiving_example\<lparr>currentLine_f := '' *''\<rparr>)) = ''*''" by code_simp
  show ?thesis
    using t star_line_restarts_series [OF t, of extract_double]
    by (simp add: receiving_example_def emptySeries_def)
qed

text \<open>
  Claim C6. A line that after trimming starts with \<open>*\<close> and is not exactly \<open>*\<close> is
  ignored in any parser state: \<open>handleCompletedLine\<close> returns the manager unchanged and
  \<open>Nothing\<close>, and the call of \<open>processReceivedChar\<close> that consumes its line feed changes nothing
  but the line buffer, which it clears.
\<close>

theorem star_prefixed_line_ignored:
  assumes "trim rawLine = line" and "line \<noteq> []" and "hd line = CHR ''*''" and "line \<noteq> ''*''"
  shows "handleCompletedLine ex m rawLine = (m, Nothing) \<and>
         (currentLine_f m = rawLine \<longrightarrow> processReceivedChar ex m LF = (m\<lparr>currentLine_f := []\<rparr>, Nothing))"
  using assms by (auto simp add: processReceivedChar_def handleCompletedLine_def Let_def)

theorem star_prefixed_line_ignored_witness:
  "trim ''* AVCC = 5.0'' = ''* AVCC = 5.0'' \<and> ''* AVCC = 5.0'' \<noteq> [] \<and>
   hd ''* AVCC = 5.0'' = CHR ''*'' \<and> ''* AVCC = 5.0'' \<noteq> ''*'' \<and>
   handleCompletedLine extract_double receiving_example ''* AVCC = 5.0'' = (receiving_example, Nothing) \<and>
   processReceivedChar extract_double (receiving_example\<lparr>currentLine_f := ''* AVCC = 5.0''\<rparr>) LF =
     (receiving_example\<lparr>currentLine_f := []\<rparr>, Nothing)"
proof -
  have t: "trim ''* AVCC = 5.0'' = ''* AVCC = 5.0''" by code_simp
  have a: "''* AVCC = 5.0'' \<noteq> []" "hd ''* AVCC = 5.0'' = CHR ''*''" "''* AVCC = 5.0'' \<noteq> ''*''"
    by simp_all
  show ?thesis
    using t a star_prefixed_line_ignored [OF t a, of extract_double receiving_example]
      star_prefixed_line_ignored [OF t a, of extract_double "receiving_example\<lparr>currentLine_f := ''* AVCC = 5.0''\<rparr>"]
    by simp
qed

subsection \<open>Removal and indexed access\<close>

text \<open>
  Claim C7. \<open>removeLastSeries\<close> on a manager without completed series changes nothing;
  on a manager with \<open>N \<ge> 1\<close> completed series it removes the last one and only that:
  \<open>seriesCount\<close> goes from \<open>N\<close> to \<open>N - 1\<close>, the first \<open>N - 1\<close> series stay as they were, and no
  other field changes.
\<close>

theorem removeLastSeries_spec:
  "(series_f m = [] \<longrightarrow> removeLastSeries m = m) \<and>
   (series_f m \<noteq> [] \<longrightarrow>
      seriesCount (removeLastSeries m) = seriesCount m - 1 \<and>
      series_f (removeLastSeries m) = take (seriesCount m - 1) (series_f m) \<and>
      series_f m = series_f (removeLastSeries m) @ [last (series_f m)] \<and>
      removeLastSeries m = m\<lparr>series_f := butlast (series_f m)\<rparr>)"
proof -
  have "take (length (series_f m) - 1) (series_f m) = butlast (series_f m)"
    by (simp add: butlast_conv_take)
  then show ?thesis
    by (simp add: removeLastSeries_def seriesCount_def del: One_nat_def)
qed

theorem removeLastSeries_spec_witness:
  "series_f initManager = [] \<and> removeLastSeries initManager = initManager \<and>
   series_f spec_example \<noteq> [] \<and> seriesCount spec_example = 1 \<and>
   seriesCount (removeLastSeries spec_example) = 0 \<and>
   series_f (removeLastSeries spec_example) = []"
proof -
  have e: "series_f initManager = []" by (simp add: initManager_def)
  have n: "series_f spec_example \<noteq> []" by (simp add: spec_example_def)
  have c: "seriesCount spec_example = 1" by (simp add: spec_example_def seriesCount_def)
  show ?thesis
    using e n c removeLastSeries_spec [of initManager] removeLastSeries_spec [of spec_example]
    by (simp add: seriesCount_def spec_example_def)
qed

text \<open>
  Claim C8. \<open>series(index)\<close> returns the completed series at that position when
  \<open>index < seriesCount()\<close> and fails with \<open>OutOfRange\<close> when \<open>index \<ge> seriesCount()\<close>. The method
  is \<open>const\<close>: it is a function of the manager and returns no new manager.
\<close>

theorem series_index_checked:
  "(index < seriesCount m \<longrightarrow> series m index = Inr (allSeries m ! index)) \<and>
   (seriesCount m \<le> index \<longrightarrow> series m index = Inl OutOfRange)"
  by (simp add: series_def seriesCount_def allSeries_def)

theorem series_index_checked_witness:
  "0 < seriesCount spec_example \<and>
   series spec_example 0 = Inr \<lparr>points_f = [\<lparr>voltageVolt = 1, currentMilliAmp = 2\<rparr>,
                                            \<lparr>voltageVolt = 3, currentMilliAmp = 1 / 2\<rparr>]\<rparr> \<and>
   seriesCount spec_example \<le> 1 \<and> series spec_example 1 = Inl OutOfRange"
proof -
  have c: "seriesCount spec_example = 1" by (simp add: spec_example_def seriesCount_def)
  show ?thesis
    using c series_index_checked [of 0 spec_example] series_index_checked [of 1 spec_example]
    by (simp add: allSeries_def spec_example_def)
qed

subsection \<open>Reachable managers\<close>

lemma parseDataLine_frame:
  "series_f (parseDataLine ex m line) = series_f m"
  "state_f (parseDataLine ex m line) = state_f m"
  "currentLine_f (parseDataLine ex m line) = currentLine_f m"
  by (simp_all add: parseDataLine_def split: option.splits)

lemma handleCompletedLine_cases:
  assumes "handleCompletedLine ex m raw = (m', r)"
  shows "(r = Nothing \<and> series_f m' = series_f m) \<or>
         (r = SeriesCompleted \<and> \<not> empty (tempSeries_f m) \<and> state_f m = ReceivingSeries \<and>
          series_f m' = series_f m @ [tempSeries_f m] \<and> tempSeries_f m' = emptySeries \<and>
          state_f m' = Idle)"
  using assms
  by (auto simp add: handleCompletedLine_def Let_def parseDataLine_frame split: if_splits)

lemma processReceivedChar_cases:
  assumes "processReceivedChar ex m c = (m', r)"
  shows "(r = Nothing \<and> series_f m' = series_f m) \<or>
         (r = SeriesCompleted \<and> c = LF \<and> \<not> empty (tempSeries_f m) \<and> state_f m = ReceivingSeries \<and>
          series_f m' = series_f m @ [tempSeries_f m] \<and> tempSeries_f m' = emptySeries \<and>
          state_f m' = Idle)"
proof (cases "c = LF")
  case True
  obtain m1 r1 where h: "handleCompletedLine ex m (currentLine_f m) = (m1, r1)"
    by (cases "handleCompletedLine ex m (currentLine_f m)")
  with True assms have "m' = m1\<lparr>currentLine_f := []\<rparr>" and "r = r1"
    by (auto simp add: processReceivedChar_def)
  with handleCompletedLine_cases [OF h] True show ?thesis by auto
next
  case False
  with assms show ?thesis by (auto simp add: processReceivedChar_def split: if_splits)
qed

lemma reachable_feed: "reachable ex m \<Longrightarrow> reachable ex (fst (feed ex m cs))"
proof (induction cs arbitrary: m)
  case Nil
  then show ?case by simp
next
  case (Cons c cs)
  have "reachable ex (fst (processReceivedChar ex m c))"
    using Cons.prems by (rule reachable.received)
  from Cons.IH [OF this] show ?case
    by (simp add: split_def Let_def)
qed

lemma reachable_series_nonempty:
  assumes "reachable ex m"
  shows "\<forall>s\<in>set (series_f m). \<not> empty s"
  using assms
proof (induction rule: reachable.induct)
  case init
  show ?case by (simp add: initManager_def)
next
  case (received m c)
  obtain m' r where h: "processReceivedChar ex m c = (m', r)"
    by (cases "processReceivedChar ex m c")
  from processReceivedChar_cases [OF h] received.IH h show ?case by auto
next
  case (removedLast m)
  then show ?case by (auto simp add: removeLastSeries_def dest: in_set_butlastD)
next
  case (removedAll m)
  show ?case by (simp add: removeAllSeries_def)
qed

text \<open>
  Claim C5. For every manager reachable from the default-constructed one by
  \<open>processReceivedChar\<close>, \<open>removeLastSeries\<close> and \<open>removeAllSeries\<close>: every completed series is
  non-empty; a call of \<open>processReceivedChar\<close> either returns \<open>Nothing\<close> and leaves the completed
  series as they are, or returns \<open>SeriesCompleted\<close> and appends the non-empty temporary series,
  which it clears; the removals only shorten the completed series. So the temporary series
  enters the completed series only when it is finalized, and only when non-empty.
\<close>

theorem completed_series_invariant:
  assumes "reachable ex m"
  shows "(\<forall>s\<in>set (series_f m). \<not> empty s) \<and>
         (\<forall>c m' r. processReceivedChar ex m c = (m', r) \<longrightarrow>
            (r = Nothing \<and> series_f m' = series_f m) \<or>
            (r = SeriesCompleted \<and> \<not> empty (tempSeries_f m) \<and>
             series_f m' = series_f m @ [tempSeries_f m] \<and> tempSeries_f m' = emptySeries)) \<and>
         (\<exists>k. series_f (removeLastSeries m) = take k (series_f m)) \<and>
         series_f (removeAllSeries m) = []"
proof (intro conjI allI impI)
  show "\<forall>s\<in>set (series_f m). \<not> empty s"
    using assms by (rule reachable_series_nonempty)
next
  fix c m' r
  assume "processReceivedChar ex m c = (m', r)"
  from processReceivedChar_cases [OF this]
  show "(r = Nothing \<and> series_f m' = series_f m) \<or>
        (r = SeriesCompleted \<and> \<not> empty (tempSeries_f m) \<and>
         series_f m' = series_f m @ [tempSeries_f m] \<and> tempSeries_f m' = emptySeries)"
    by blast
next
  show "\<exists>k. series_f (removeLastSeries m) = take k (series_f m)"
  proof (cases "series_f m = []")
    case True
    then show ?thesis by (simp add: removeLastSeries_def)
  next
    case False
    then have "series_f (removeLastSeries m) = take (length (series_f m) - 1) (series_f m)"
      by (simp add: removeLastSeries_def butlast_conv_take)
    then show ?thesis ..
  qed
next
  show "series_f (removeAllSeries m) = []" by (simp add: removeAllSeries_def)
qed

theorem completed_series_invariant_witness:
  "reachable extract_double (fst (feed extract_double initManager (''*'' @ [LF] @ ''1 2'' @ [LF] @ ''#'' @ [LF]))) \<and>
   series_f (fst (feed extract_double initManager (''*'' @ [LF] @ ''1 2'' @ [LF] @ ''#'' @ [LF])))
     = [\<lparr>points_f = [\<lparr>voltageVolt = 1, currentMilliAmp = 2\<rparr>]\<rparr>] \<and>
   \<not> empty \<lparr>points_f = [\<lparr>voltageVolt = 1, currentMilliAmp = 2\<rparr>]\<rparr>"
proof -
  let ?m = "fst (feed extract_double initManager (''*'' @ [LF] @ ''1 2'' @ [LF] @ ''#'' @ [LF]))"
  have r: "reachable extract_double ?m"
    by (rule reachable_feed [OF reachable.init])
  have s: "series_f ?m = [\<lparr>points_f = [\<lparr>voltageVolt = 1, currentMilliAmp = 2\<rparr>]\<rparr>]"
    by code_simp
  from completed_series_invariant [OF r] have "\<forall>s\<in>set (series_f ?m). \<not> empty s" by blast
  then have "\<not> empty \<lparr>points_f = [\<lparr>voltageVolt = 1, currentMilliAmp = 2\<rparr>]\<rparr>"
    unfolding s by simp
  with r s show ?thesis by blast
qed

subsection \<open>Data lines\<close>

text \<open>
  Claim C9. As amended. \<open>parseDataLine\<close>, which \<open>handleCompletedLine\<close> calls in state
  \<open>ReceivingSeries\<close> on every trimmed line that is not empty, does not start with \<open>*\<close> and is
  not \<open>#\<close>: when the two extractions of \<open>iss >> x >> y\<close> succeed, the point \<open>(x, y)\<close> is appended
  to the temporary series, whatever text \<open>rest'\<close> follows the second number, and nothing else
  changes; when the first or the second extraction fails, the manager is unchanged. The call of
  \<open>handleCompletedLine\<close> returns \<open>Nothing\<close> in both cases. The condition is the success of the
  two extractions, each of which reads a numeric prefix of what is left of the line; it is
  not that the first two whitespace-separated tokens are numbers.
\<close>

theorem data_line_appends_point:
  "(ex line = Some (x, rest) \<and> ex rest = Some (y, rest') \<longrightarrow>
      parseDataLine ex m line = m\<lparr>tempSeries_f := addPoint (tempSeries_f m) x y\<rparr> \<and>
      points (addPoint (tempSeries_f m) x y) =
        points (tempSeries_f m) @ [\<lparr>voltageVolt = x, currentMilliAmp = y\<rparr>]) \<and>
   (ex line = None \<or> (ex line = Some (x, rest) \<and> ex rest = None) \<longrightarrow>
      parseDataLine ex m line = m) \<and>
   (state_f m = ReceivingSeries \<and> trim rawLine = line \<and>
    line \<noteq> [] \<and> hd line \<noteq> CHR ''*'' \<and> line \<noteq> ''#'' \<longrightarrow>
      handleCompletedLine ex m rawLine = (parseDataLine ex m line, Nothing))"
proof (intro conjI impI)
  assume "ex line = Some (x, rest) \<and> ex rest = Some (y, rest')"
  then show "parseDataLine ex m line = m\<lparr>tempSeries_f := addPoint (tempSeries_f m) x y\<rparr>"
    by (simp add: parseDataLine_def extract_pair_def)
next
  show "points (addPoint (tempSeries_f m) x y) =
      points (tempSeries_f m) @ [\<lparr>voltageVolt = x, currentMilliAmp = y\<rparr>]"
    by (simp add: addPoint_def points_def)
next
  assume "ex line = None \<or> (ex line = Some (x, rest) \<and> ex rest = None)"
  then show "parseDataLine ex m line = m"
    by (auto simp add: parseDataLine_def extract_pair_def)
next
  assume a: "state_f m = ReceivingSeries \<and> trim rawLine = line \<and>
    line \<noteq> [] \<and> hd line \<noteq> CHR ''*'' \<and> line \<noteq> ''#''"
  then have "line \<noteq> ''*''" by auto
  with a show "handleCompletedLine ex m rawLine = (parseDataLine ex m line, Nothing)"
    by (simp add: handleCompletedLine_def Let_def)
qed

theorem data_line_appends_point_witness:
  "state_f receiving_example = ReceivingSeries \<and>
   trim (''1.0 2.0 garbage'' @ [CR]) = ''1.0 2.0 garbage'' \<and>
   extract_double ''1.0 2.0 garbage'' = Some (1, '' 2.0 garbage'') \<and>
   extract_double '' 2.0 garbage'' = Some (2, '' garbage'') \<and>
   handleCompletedLine extract_double receiving_example (''1.0 2.0 garbage'' @ [CR]) =
     (receiving_example\<lparr>tempSeries_f :=
        \<lparr>points_f = [\<lparr>voltageVolt = 1, currentMilliAmp = 2\<rparr>, \<lparr>voltageVolt = 1, currentMilliAmp = 2\<rparr>]\<rparr>\<rparr>,
      Nothing) \<and>
   trim ''1.0 volts'' = ''1.0 volts'' \<and>
   extract_double ''1.0 volts'' = Some (1, '' volts'') \<and> extract_double '' volts'' = None \<and>
   handleCompletedLine extract_double receiving_example ''1.0 volts'' = (receiving_example, Nothing)"
proof -
  have s: "state_f receiving_example = ReceivingSeries" by (simp add: receiving_example_def)
  have t: "trim (''1.0 2.0 garbage'' @ [CR]) = ''1.0 2.0 garbage''" by code_simp
  have n: "''1.0 2.0 garbage'' \<noteq> []" "hd ''1.0 2.0 garbage'' \<noteq> CHR ''*''" "''1.0 2.0 garbage'' \<noteq> ''#''"
    by simp_all
  have x: "extract_double ''1.0 2.0 garbage'' = Some (1, '' 2.0 garbage'')" by code_simp
  have y: "extract_double '' 2.0 garbage'' = Some (2, '' garbage'')" by code_simp
  have t': "trim ''1.0 volts'' = ''1.0 volts''" by code_simp
  have n': "''1.0 volts'' \<noteq> []" "hd ''1.0 volts'' \<noteq> CHR ''*''" "''1.0 volts'' \<noteq> ''#''"
    by simp_all
  have x': "extract_double ''1.0 volts'' = Some (1, '' volts'')" by code_simp
  have y': "extract_double '' volts'' = None" by code_simp
  have a: "handleCompletedLine extract_double receiving_example (''1.0 2.0 garbage'' @ [CR]) =
     (receiving_example\<lparr>tempSeries_f :=
        \<lparr>points_f = [\<lparr>voltageVolt = 1, currentMilliAmp = 2\<rparr>, \<lparr>voltageVolt = 1, currentMilliAmp = 2\<rparr>]\<rparr>\<rparr>,
      Nothing)"
    using data_line_appends_point [of extract_double "''1.0 2.0 garbage''" 1 "'' 2.0 garbage''" 2
        "'' garbage''" receiving_example "''1.0 2.0 garbage'' @ [CR]"] s t n x y
    by (simp add: addPoint_def receiving_example_def)
  have b: "handleCompletedLine extract_double receiving_example ''1.0 volts'' = (receiving_example, Nothing)"
    using data_line_appends_point [of extract_double "''1.0 volts''" 1 "'' volts''" _ _
        receiving_example "''1.0 volts''"] s t' n' x' y'
    by simp
  show ?thesis using s t x y a t' x' y' b by blast
qed

text \<open>
  With tokens in place of extractions the second half fails. In state \<open>ReceivingSeries\<close> the
  line \<open>1-2\<close> is a single token and not a number, and the point \<open>(1, -2)\<close> is appended: the
  first extraction stops before the minus sign and the second one starts there. The line
  \<open>1.5.25 4\<close> has the tokens \<open>1.5.25\<close> and \<open>4\<close>, the first of which is not a number, and the point
  \<open>(1.5, 0.25)\<close> is appended: the first extraction stops before the second decimal point.
\<close>

theorem data_line_tokens_counterexample:
  "state_f receiving_example = ReceivingSeries \<and>
   trim ''1-2'' = ''1-2'' \<and> ws_tokens ''1-2'' = [''1-2''] \<and>
   \<not> first_two_tokens_are_numbers extract_double ''1-2'' \<and>
   handleCompletedLine extract_double receiving_example ''1-2'' =
     (receiving_example\<lparr>tempSeries_f :=
        \<lparr>points_f = [\<lparr>voltageVolt = 1, currentMilliAmp = 2\<rparr>, \<lparr>voltageVolt = 1, currentMilliAmp = - 2\<rparr>]\<rparr>\<rparr>,
      Nothing) \<and>
   handleCompletedLine extract_double receiving_example ''1-2'' \<noteq> (receiving_example, Nothing) \<and>
   trim ''1.5.25 4'' = ''1.5.25 4'' \<and> ws_tokens ''1.5.25 4'' = [''1.5.25'', ''4''] \<and>
   \<not> token_is_number extract_double ''1.5.25'' \<and>
   \<not> first_two_tokens_are_numbers extract_double ''1.5.25 4'' \<and>
   handleCompletedLine extract_double receiving_example ''1.5.25 4'' =
     (receiving_example\<lparr>tempSeries_f :=
        \<lparr>points_f = [\<lparr>voltageVolt = 1, currentMilliAmp = 2\<rparr>, \<lparr>voltageVolt = 3 / 2, currentMilliAmp = 1 / 4\<rparr>]\<rparr>\<rparr>,
      Nothing) \<and>
   handleCompletedLine extract_double receiving_example ''1.5.25 4'' \<noteq> (receiving_example, Nothing)"
proof -
  have s: "state_f receiving_example = ReceivingSeries" by (simp add: receiving_example_def)
  have t1: "trim ''1-2'' = ''1-2''" by code_simp
  have k1: "ws_tokens ''1-2'' = [''1-2'']" by code_simp
  have n1: "\<not> first_two_tokens_are_numbers extract_double ''1-2''" by code_simp
  have h1: "handleCompletedLine extract_double receiving_example ''1-2'' =
     (receiving_example\<lparr>tempSeries_f :=
        \<lparr>points_f = [\<lparr>voltageVolt = 1, currentMilliAmp = 2\<rparr>, \<lparr>voltageVolt = 1, currentMilliAmp = - 2\<rparr>]\<rparr>\<rparr>,
      Nothing)"
    by code_simp
  have d1: "handleCompletedLine extract_double receiving_example ''1-2'' \<noteq> (receiving_example, Nothing)"
    unfolding h1 by (simp add: receiving_example_def)
  have t2: "trim ''1.5.25 4'' = ''1.5.25 4''" by code_simp
  have k2: "ws_tokens ''1.5.25 4'' = [''1.5.25'', ''4'']" by code_simp
  have m2: "\<not> token_is_number extract_double ''1.5.25''" by code_simp
  have n2: "\<not> first_two_tokens_are_numbers extract_double ''1.5.25 4''" by code_simp
  have h2: "handleCompletedLine extract_double receiving_example ''1.5.25 4'' =
     (receiving_example\<lparr>tempSeries_f :=
        \<lparr>points_f = [\<lparr>voltageVolt = 1, currentMilliAmp = 2\<rparr>, \<lparr>voltageVolt = 3 / 2, currentMilliAmp = 1 / 4\<rparr>]\<rparr>\<rparr>,
      Nothing)"
    by code_simp
  have d2: "handleCompletedLine extract_double receiving_example ''1.5.25 4'' \<noteq> (receiving_example, Nothing)"
    unfolding h2 by (simp add: receiving_example_def)
  show ?thesis using s t1 k1 n1 h1 d1 t2 k2 m2 n2 h2 d2 by blast
qed

subsection \<open>A whole series\<close>

lemma feed_append:
  "feed ex m (xs @ ys) =
     (let (m1, rs1) = feed ex m xs; (m2, rs2) = feed ex m1 ys in (m2, rs1 @ rs2))"
  by (induction xs arbitrary: m) (simp_all add: split_def Let_def)

lemma feed_append_eq:
  assumes "feed ex m xs = (m1, rs1)" and "feed ex m1 ys = (m2, rs2)"
  shows "feed ex m (xs @ ys) = (m2, rs1 @ rs2)"
  using assms by (simp add: feed_append)

lemma handleCompletedLine_currentLine:
  "handleCompletedLine ex (m\<lparr>currentLine_f := b\<rparr>) raw =
     (let (m', r) = handleCompletedLine ex m raw in (m'\<lparr>currentLine_f := b\<rparr>, r))"
  by (simp add: handleCompletedLine_def Let_def parseDataLine_def split: option.splits)

lemma feed_line:
  assumes "LF \<notin> set l"
  shows "feed ex m (l @ [LF]) =
           (let (m', r) = handleCompletedLine ex m (currentLine_f m @ filter (\<lambda>c. c \<noteq> CR) l)
            in (m'\<lparr>currentLine_f := []\<rparr>, replicate (length l) Nothing @ [r]))"
  using assms
proof (induction l arbitrary: m)
  case Nil
  show ?case by (simp add: processReceivedChar_def split_def Let_def)
next
  case (Cons c l)
  then have c: "c \<noteq> LF" and l: "LF \<notin> set l" by auto
  show ?case
  proof (cases "c = CR")
    case True
    then have "processReceivedChar ex m c = (m, Nothing)"
      using c by (simp add: processReceivedChar_def)
    then show ?thesis using Cons.IH [OF l, of m] True
      by (simp add: split_def Let_def)
  next
    case False
    then have p: "processReceivedChar ex m c = (m\<lparr>currentLine_f := currentLine_f m @ [c]\<rparr>, Nothing)"
      using c by (simp add: processReceivedChar_def)
    show ?thesis
      using Cons.IH [OF l, of "m\<lparr>currentLine_f := currentLine_f m @ [c]\<rparr>"] False
      by (simp add: p handleCompletedLine_currentLine split_def Let_def)
  qed
qed

lemma handle_data_line:
  assumes rej: "\<And>s. s = [] \<or> hd s = CHR ''*'' \<or> hd s = CHR ''#'' \<Longrightarrow> ex s = None"
    and st: "state_f m = ReceivingSeries"
    and xy: "extract_pair ex (trim raw) = Some (x, y)"
  shows "handleCompletedLine ex m raw = (m\<lparr>tempSeries_f := addPoint (tempSeries_f m) x y\<rparr>, Nothing)"
proof -
  from xy have "ex (trim raw) \<noteq> None"
    by (auto simp add: extract_pair_def split: option.splits)
  with rej [of "trim raw"] have n: "trim raw \<noteq> []"
    and s: "hd (trim raw) \<noteq> CHR ''*''" and h: "hd (trim raw) \<noteq> CHR ''#''"
    by auto
  from s h have "trim raw \<noteq> ''*''" and "trim raw \<noteq> ''#''" by auto
  with n s st xy show ?thesis
    by (simp add: handleCompletedLine_def Let_def parseDataLine_def)
qed

lemma feed_data_lines:
  assumes rej: "\<And>s. s = [] \<or> hd s = CHR ''*'' \<or> hd s = CHR ''#'' \<Longrightarrow> ex s = None"
    and ok: "\<forall>(l, xy)\<in>set lines. LF \<notin> set l \<and> extract_pair ex (assembled l) = Some xy"
    and st: "state_f m = ReceivingSeries" and cl: "currentLine_f m = []"
  shows "feed ex m (concat (map (\<lambda>l. l @ [LF]) (map fst lines))) =
           (m\<lparr>tempSeries_f := \<lparr>points_f = points_f (tempSeries_f m) @ map (mkPoint \<circ> snd) lines\<rparr>\<rparr>,
            replicate (length (concat (map (\<lambda>l. l @ [LF]) (map fst lines)))) Nothing)"
  using ok st cl
proof (induction lines arbitrary: m)
  case Nil
  show ?case by simp
next
  case (Cons a lines)
  obtain l x y where a: "a = (l, (x, y))" by (cases a) auto
  from Cons.prems(1) a have l: "LF \<notin> set l" and xy: "extract_pair ex (assembled l) = Some (x, y)"
    and rest: "\<forall>(l, xy)\<in>set lines. LF \<notin> set l \<and> extract_pair ex (assembled l) = Some xy"
    by auto
  let ?m1 = "m\<lparr>tempSeries_f := addPoint (tempSeries_f m) x y\<rparr>"
  have h: "handleCompletedLine ex m (filter (\<lambda>c. c \<noteq> CR) l) = (?m1, Nothing)"
    using rej Cons.prems(2) xy [unfolded assembled_def] by (rule handle_data_line)
  have one: "feed ex m (l @ [LF]) = (?m1, replicate (length l) Nothing @ [Nothing])"
    using feed_line [OF l, of ex m] h Cons.prems(3) by simp
  have st1: "state_f ?m1 = ReceivingSeries" and cl1: "currentLine_f ?m1 = []"
    using Cons.prems by simp_all
  let ?rest = "concat (map (\<lambda>l. l @ [LF]) (map fst lines))"
  let ?m2 = "?m1\<lparr>tempSeries_f := \<lparr>points_f = points_f (tempSeries_f ?m1) @ map (mkPoint \<circ> snd) lines\<rparr>\<rparr>"
  have two: "feed ex ?m1 ?rest = (?m2, replicate (length ?rest) Nothing)"
    by (rule Cons.IH [OF rest st1 cl1])
  have both: "feed ex m ((l @ [LF]) @ ?rest) =
      (?m2, (replicate (length l) Nothing @ [Nothing]) @ replicate (length ?rest) Nothing)"
    by (rule feed_append_eq [OF one two])
  have inp: "concat (map (\<lambda>l. l @ [LF]) (map fst (a # lines))) = (l @ [LF]) @ ?rest"
    by (simp add: a)
  have res: "(replicate (length l) Nothing @ [Nothing]) @ replicate (length ?rest) Nothing =
      replicate (length ((l @ [LF]) @ ?rest)) Nothing"
    by (simp add: replicate_add [symmetric] replicate_append_same del: replicate_add)
  have fin: "?m2 = m\<lparr>tempSeries_f :=
      \<lparr>points_f = points_f (tempSeries_f m) @ map (mkPoint \<circ> snd) (a # lines)\<rparr>\<rparr>"
    by (simp add: a addPoint_def mkPoint_def)
  show ?case unfolding inp using both unfolding res fin .
qed

lemma trim_star: "trim ''*'' = ''*''" by code_simp

lemma trim_hash: "trim ''#'' = ''#''" by code_simp

lemma feed_star:
  assumes "currentLine_f m = []"
  shows "feed ex m (''*'' @ [LF]) =
           (m\<lparr>tempSeries_f := emptySeries, state_f := ReceivingSeries\<rparr>, [Nothing, Nothing])"
proof -
  have "LF \<notin> set ''*''" by (simp add: LF_def)
  from feed_line [OF this, of ex m] assms show ?thesis
    by (simp add: CR_def handleCompletedLine_def trim_star)
qed

lemma feed_hash:
  assumes "currentLine_f m = []" and "state_f m = ReceivingSeries" and "points_f (tempSeries_f m) \<noteq> []"
  shows "feed ex m (''#'' @ [LF]) =
           (m\<lparr>series_f := series_f m @ [tempSeries_f m], tempSeries_f := emptySeries, state_f := Idle\<rparr>,
            [Nothing, SeriesCompleted])"
proof -
  have "LF \<notin> set ''#''" by (simp add: LF_def)
  from feed_line [OF this, of ex m] assms show ?thesis
    by (simp add: CR_def handleCompletedLine_def trim_hash empty_def)
qed

text \<open>
  Claim C1. For every extractor that fails on an exhausted stream and on a stream whose
  next character is \<open>*\<close> or \<open>#\<close>, and for every non-empty list of lines without a line feed
  whose trimmed text yields two numbers under \<open>iss >> x >> y\<close>: feeding the default-constructed
  manager the bytes of a \<open>*\<close> line, these lines and a \<open>#\<close> line, each ended by a line feed, leaves
  exactly one completed series, holding one point per line (first number as voltage, second as
  current) in arrival order, with the parser idle again and nothing buffered;
  \<open>processReceivedChar\<close> returns \<open>Nothing\<close> on every call but the last and \<open>SeriesCompleted\<close> on the
  last one, which consumes the line feed of the \<open>#\<close> line.
\<close>

theorem star_lines_hash_yields_one_series:
  assumes rej: "\<And>s. s = [] \<or> hd s = CHR ''*'' \<or> hd s = CHR ''#'' \<Longrightarrow> ex s = None"
    and n: "lines \<noteq> []"
    and ok: "\<forall>(l, xy)\<in>set lines. LF \<notin> set l \<and> extract_pair ex (assembled l) = Some xy"
  shows "feed ex initManager (series_bytes (map fst lines)) =
           (initManager\<lparr>series_f := [\<lparr>points_f = map (mkPoint \<circ> snd) lines\<rparr>]\<rparr>,
            replicate (length (series_bytes (map fst lines)) - 1) Nothing @ [SeriesCompleted])"
proof -
  let ?data = "concat (map (\<lambda>l. l @ [LF]) (map fst lines))"
  let ?m1 = "initManager\<lparr>tempSeries_f := emptySeries, state_f := ReceivingSeries\<rparr>"
  let ?m2 = "?m1\<lparr>tempSeries_f := \<lparr>points_f = points_f (tempSeries_f ?m1) @ map (mkPoint \<circ> snd) lines\<rparr>\<rparr>"
  have a: "feed ex initManager (''*'' @ [LF]) = (?m1, [Nothing, Nothing])"
    by (rule feed_star) (simp add: initManager_def)
  have b: "feed ex ?m1 ?data = (?m2, replicate (length ?data) Nothing)"
    by (rule feed_data_lines [OF rej ok]) (simp_all add: initManager_def)
  have c: "feed ex ?m2 (''#'' @ [LF]) =
      (?m2\<lparr>series_f := series_f ?m2 @ [tempSeries_f ?m2], tempSeries_f := emptySeries, state_f := Idle\<rparr>,
       [Nothing, SeriesCompleted])"
    by (rule feed_hash) (simp_all add: initManager_def n)
  have split: "series_bytes (map fst lines) = (''*'' @ [LF]) @ ?data @ (''#'' @ [LF])"
    by (simp add: series_bytes_def)
  have len: "length (series_bytes (map fst lines)) - 1 = Suc (Suc (Suc (length ?data)))"
    by (simp add: series_bytes_def)
  let ?m3 = "?m2\<lparr>series_f := series_f ?m2 @ [tempSeries_f ?m2], tempSeries_f := emptySeries, state_f := Idle\<rparr>"
  have bc: "feed ex ?m1 (?data @ (''#'' @ [LF])) =
      (?m3, replicate (length ?data) Nothing @ [Nothing, SeriesCompleted])"
    by (rule feed_append_eq [OF b c])
  have abc: "feed ex initManager ((''*'' @ [LF]) @ ?data @ (''#'' @ [LF])) =
      (?m3, [Nothing, Nothing] @ replicate (length ?data) Nothing @ [Nothing, SeriesCompleted])"
    by (rule feed_append_eq [OF a bc])
  have fin: "?m3 = initManager\<lparr>series_f := [\<lparr>points_f = map (mkPoint \<circ> snd) lines\<rparr>]\<rparr>"
    by (simp add: initManager_def emptySeries_def)
  have res: "[Nothing, Nothing] @ replicate (length ?data) Nothing @ [Nothing, SeriesCompleted] =
      replicate (length (series_bytes (map fst lines)) - 1) Nothing @ [SeriesCompleted]"
    unfolding len by (simp add: replicate_append_same)
  have "feed ex initManager (series_bytes (map fst lines)) =
      (?m3, [Nothing, Nothing] @ replicate (length ?data) Nothing @ [Nothing, SeriesCompleted])"
    using abc by (simp only: split)
  then show ?thesis by (simp only: fin res)
qed

lemma extract_double_rejects:
  assumes "s = [] \<or> hd s = CHR ''*'' \<or> hd s = CHR ''#''"
  shows "extract_double s = None"
proof (cases s)
  case Nil
  then show ?thesis by (simp add: extract_double_def is_sign_def)
next
  case (Cons c r)
  with assms have c: "c = CHR ''*'' \<or> c = CHR ''#''" by simp
  then have a: "dropWhile isspace s = s" by (auto simp add: Cons isspace_def)
  have b: "\<not> is_sign s" using c by (auto simp add: Cons is_sign_def)
  have d: "takeWhile isdigit s = []" "dropWhile isdigit s = s" using c by (auto simp add: Cons isdigit_def)
  have e: "hd s \<noteq> CHR ''.''" using c by (auto simp add: Cons)
  show ?thesis
    by (simp add: extract_double_def a b d e)
qed

theorem star_lines_hash_yields_one_series_witness:
  "LF \<notin> set ''1.0 0.5'' \<and> extract_pair extract_double (assembled ''1.0 0.5'') = Some (1, 1 / 2) \<and>
   LF \<notin> set (''2.0 1.0'' @ [CR]) \<and>
   extract_pair extract_double (assembled (''2.0 1.0'' @ [CR])) = Some (2, 1) \<and>
   feed extract_double initManager (''*'' @ [LF] @ ''1.0 0.5'' @ [LF] @ ''2.0 1.0'' @ [CR, LF] @ ''#'' @ [LF]) =
     (\<lparr>state_f = Idle, currentLine_f = [], tempSeries_f = \<lparr>points_f = []\<rparr>,
       series_f = [\<lparr>points_f = [\<lparr>voltageVolt = 1, currentMilliAmp = 1 / 2\<rparr>,
                               \<lparr>voltageVolt = 2, currentMilliAmp = 1\<rparr>]\<rparr>]\<rparr>,
      replicate 20 Nothing @ [SeriesCompleted])"
proof -
  let ?lines = "[(''1.0 0.5'', (1::real, 1 / 2 :: real)), (''2.0 1.0'' @ [CR], (2, 1))]"
  have n: "?lines \<noteq> []" by simp
  have p1: "extract_pair extract_double (assembled ''1.0 0.5'') = Some (1, 1 / 2)" by code_simp
  have p2: "extract_pair extract_double (assembled (''2.0 1.0'' @ [CR])) = Some (2, 1)" by code_simp
  have ok: "\<forall>(l, xy)\<in>set ?lines. LF \<notin> set l \<and> extract_pair extract_double (assembled l) = Some xy"
    using p1 p2 by (simp add: LF_def CR_def)
  have inp: "''*'' @ [LF] @ ''1.0 0.5'' @ [LF] @ ''2.0 1.0'' @ [CR, LF] @ ''#'' @ [LF] =
      series_bytes (map fst ?lines)"
    by (simp add: series_bytes_def)
  have fin: "initManager\<lparr>series_f := [\<lparr>points_f = map (mkPoint \<circ> snd) ?lines\<rparr>]\<rparr> =
      \<lparr>state_f = Idle, currentLine_f = [], tempSeries_f = \<lparr>points_f = []\<rparr>,
       series_f = [\<lparr>points_f = [\<lparr>voltageVolt = 1, currentMilliAmp = 1 / 2\<rparr>,
                               \<lparr>voltageVolt = 2, currentMilliAmp = 1\<rparr>]\<rparr>]\<rparr>"
    by (simp add: initManager_def emptySeries_def mkPoint_def)
  have len: "length (series_bytes (map fst ?lines)) - 1 = 20"
    by (simp add: series_bytes_def)
  have "feed extract_double initManager (''*'' @ [LF] @ ''1.0 0.5'' @ [LF] @ ''2.0 1.0'' @ [CR, LF] @ ''#'' @ [LF]) =
     (\<lparr>state_f = Idle, currentLine_f = [], tempSeries_f = \<lparr>points_f = []\<rparr>,
       series_f = [\<lparr>points_f = [\<lparr>voltageVolt = 1, currentMilliAmp = 1 / 2\<rparr>,
                               \<lparr>voltageVolt = 2, currentMilliAmp = 1\<rparr>]\<rparr>]\<rparr>,
      replicate 20 Nothing @ [SeriesCompleted])"
    unfolding inp
    using star_lines_hash_yields_one_series [of extract_double ?lines, OF extract_double_rejects n ok]
    unfolding fin len .
  moreover have "LF \<notin> set ''1.0 0.5''" and "LF \<notin> set (''2.0 1.0'' @ [CR])"
    by (simp_all add: LF_def CR_def)
  ultimately show ?thesis using p1 p2 by blast
qed

end
